theory Spec2Isabelle
  imports Complex_Main
begin

section \<open>The chat relay of \<open>src/app.py\<close>\<close>

text \<open>
  The program is one Flask module: the pure validator \<open>sanitize_input\<close>, the view
  function \<open>chat\<close> behind the decorator \<open>@limiter.limit("3 per minute")\<close>, and the
  error handler \<open>ratelimit_handler\<close> for status 429.

  Python values are modelled as follows.
  \<^item> A \<open>str\<close> is a \<open>string\<close>: a list of code points below 256 (Latin-1), so
    \<open>length\<close> is Python's \<open>len\<close> on such text. The accented letters of the
    program's messages are written \<open>CHR 0xE1\<close> and so on.
  \<^item> A value decoded from JSON is a \<open>json\<close>; a \<open>dict\<close> is the list of its items
    (keys distinct), read with \<open>map_of\<close>. Numbers are rationals: \<open>int\<close> and finite
    \<open>float\<close> differ nowhere in this program (both are non-strings, and both are false
    exactly when zero).
  \<^item> An exception is a value of \<open>exn\<close>; a \<open>try\<close> body returns \<open>exn + 'a\<close>.
  \<^item> The calls to \<open>requests.post\<close> and to \<open>app.logger.error\<close> are returned as lists
    beside the response.
\<close>

subsection \<open>JSON values and truthiness\<close>

datatype json =
    JNull
  | JBool bool
  | JNum rat
  | JStr string
  | JArr "json list"
  | JObj "(string \<times> json) list"

text \<open>Python's truth value of a decoded JSON value (\<open>not data\<close>, \<open>not user_msg\<close>).\<close>

fun truthy :: "json \<Rightarrow> bool" where
  "truthy JNull = False"
| "truthy (JBool b) = b"
| "truthy (JNum x) = (x \<noteq> 0)"
| "truthy (JStr s) = (s \<noteq> [])"
| "truthy (JArr xs) = (xs \<noteq> [])"
| "truthy (JObj kvs) = (kvs \<noteq> [])"

text \<open>\<open>d.get(key, default)\<close> on a dict.\<close>

definition dict_get :: "(string \<times> json) list \<Rightarrow> string \<Rightarrow> json \<Rightarrow> json" where
  "dict_get kvs key dflt = (case map_of kvs key of None \<Rightarrow> dflt | Some v \<Rightarrow> v)"

subsection \<open>Strings: \<open>str.strip\<close>, whitespace and case folding\<close>

text \<open>
  \<open>str.isspace\<close> on one code point below 256: TAB, LF, VT, FF, CR, the separators
  0x1C to 0x1F, SPACE, NEL (0x85) and NBSP (0xA0). The regular-expression class
  \<open>\s\<close> of a \<open>str\<close> pattern is the same set.
\<close>

definition isspace :: "char \<Rightarrow> bool" where
  "isspace c =
     (let n = (of_char c :: nat)
      in (9 \<le> n \<and> n \<le> 13) \<or> (28 \<le> n \<and> n \<le> 32) \<or> n = 133 \<or> n = 160)"

text \<open>\<open>text.strip()\<close>: leading, then trailing whitespace is removed.\<close>

definition strip :: "string \<Rightarrow> string" where
  "strip s = rev (dropWhile isspace (rev (dropWhile isspace s)))"

text \<open>
  The lower-case mapping that \<open>re.IGNORECASE\<close> applies to a code point below 256:
  \<open>A\<close> to \<open>Z\<close> and the Latin-1 capitals 0xC0 to 0xDE (the multiplication sign 0xD7
  apart) move up by 32.
\<close>

definition py_lower :: "char \<Rightarrow> char" where
  "py_lower c =
     (let n = (of_char c :: nat)
      in if (65 \<le> n \<and> n \<le> 90) \<or> (192 \<le> n \<and> n \<le> 222 \<and> n \<noteq> 215)
         then char_of (n + 32) else c)"

subsection \<open>Regular expressions and \<open>re.search\<close>\<close>

text \<open>
  The six patterns use literals, \<open>\s\<close>, grouping with \<open>|\<close>, and the postfix
  operators \<open>*\<close>, \<open>+\<close> and \<open>?\<close>. They have no anchors, back-references or
  look-around, so \<open>re.search\<close> finds a match exactly when some substring of the text
  belongs to the language of the pattern. \<open>Never\<close> (no string) and \<open>Empty\<close> (the
  empty string) only arise while matching.
\<close>

datatype regex =
    Never
  | Empty
  | Lit char
  | Whitespace
  | Seq regex regex
  | Or regex regex
  | Many regex
  | Many1 regex
  | Maybe regex

text \<open>A literal of the pattern against a character of the text, under the flag.\<close>

definition lit_eq :: "bool \<Rightarrow> char \<Rightarrow> char \<Rightarrow> bool" where
  "lit_eq ignorecase c d = (if ignorecase then py_lower d = py_lower c else d = c)"

text \<open>What it means for a whole string to match a pattern.\<close>

inductive matches :: "bool \<Rightarrow> regex \<Rightarrow> string \<Rightarrow> bool" for ic :: bool where
  m_Empty: "matches ic Empty []"
| m_Lit: "lit_eq ic c d \<Longrightarrow> matches ic (Lit c) [d]"
| m_Whitespace: "isspace d \<Longrightarrow> matches ic Whitespace [d]"
| m_Seq: "matches ic r u \<Longrightarrow> matches ic s v \<Longrightarrow> matches ic (Seq r s) (u @ v)"
| m_OrL: "matches ic r u \<Longrightarrow> matches ic (Or r s) u"
| m_OrR: "matches ic s u \<Longrightarrow> matches ic (Or r s) u"
| m_Many0: "matches ic (Many r) []"
| m_ManyS: "matches ic r u \<Longrightarrow> matches ic (Many r) v \<Longrightarrow> matches ic (Many r) (u @ v)"
| m_Many1: "matches ic r u \<Longrightarrow> matches ic (Many r) v \<Longrightarrow> matches ic (Many1 r) (u @ v)"
| m_Maybe0: "matches ic (Maybe r) []"
| m_Maybe1: "matches ic r u \<Longrightarrow> matches ic (Maybe r) u"

text \<open>The executable matcher: does the pattern accept the empty string, and what is
  left of it after one character of the text.\<close>

fun nullable :: "regex \<Rightarrow> bool" where
  "nullable Never = False"
| "nullable Empty = True"
| "nullable (Lit c) = False"
| "nullable Whitespace = False"
| "nullable (Seq r s) = (nullable r \<and> nullable s)"
| "nullable (Or r s) = (nullable r \<or> nullable s)"
| "nullable (Many r) = True"
| "nullable (Many1 r) = nullable r"
| "nullable (Maybe r) = True"

fun deriv :: "bool \<Rightarrow> char \<Rightarrow> regex \<Rightarrow> regex" where
  "deriv ic d Never = Never"
| "deriv ic d Empty = Never"
| "deriv ic d (Lit c) = (if lit_eq ic c d then Empty else Never)"
| "deriv ic d Whitespace = (if isspace d then Empty else Never)"
| "deriv ic d (Seq r s) =
     (if nullable r then Or (Seq (deriv ic d r) s) (deriv ic d s) else Seq (deriv ic d r) s)"
| "deriv ic d (Or r s) = Or (deriv ic d r) (deriv ic d s)"
| "deriv ic d (Many r) = Seq (deriv ic d r) (Many r)"
| "deriv ic d (Many1 r) = Seq (deriv ic d r) (Many r)"
| "deriv ic d (Maybe r) = deriv ic d r"

text \<open>\<open>re.match\<close>: some prefix of the text matches.\<close>

fun re_match :: "regex \<Rightarrow> bool \<Rightarrow> string \<Rightarrow> bool" where
  "re_match r ic [] = nullable r"
| "re_match r ic (d # ds) = (nullable r \<or> re_match (deriv ic d r) ic ds)"

text \<open>\<open>re.search(pattern, text, flags)\<close> as a truth value: a match starts at some
  position of the text.\<close>

fun re_search :: "regex \<Rightarrow> string \<Rightarrow> bool \<Rightarrow> bool" where
  "re_search r [] ic = nullable r"
| "re_search r (d # ds) ic = (re_match r ic (d # ds) \<or> re_search r ds ic)"

subsection \<open>The validator \<open>sanitize_input\<close>\<close>

text \<open>A run of literal characters, and a sequence of sub-patterns.\<close>

definition word :: "string \<Rightarrow> regex" where
  "word s = foldr (\<lambda>c r. Seq (Lit c) r) s Empty"

definition seqs :: "regex list \<Rightarrow> regex" where
  "seqs rs = foldr Seq rs Empty"

text \<open>
  The list \<open>dangerous_patterns\<close>, in the order of the source:
  \<^enum> \<^verbatim>\<open>ignore\s+(previous|above|all)\s+instructions?\<close>
  \<^enum> \<^verbatim>\<open>system\s*:?\s*(prompt|message|shutdown)\<close>
  \<^enum> \<^verbatim>\<open>translate\s+the\s+above\<close>
  \<^enum> \<^verbatim>\<open>forget\s+(everything|all|previous)\<close>
  \<^enum> \<^verbatim>\<open><\s*script\<close>
  \<^enum> \<^verbatim>\<open>DROP\s+TABLE\<close>
\<close>

definition dangerous_patterns :: "regex list" where
  "dangerous_patterns =
    [ seqs [word ''ignore'', Many1 Whitespace,
            Or (word ''previous'') (Or (word ''above'') (word ''all'')),
            Many1 Whitespace, word ''instruction'', Maybe (Lit CHR ''s'')],
      seqs [word ''system'', Many Whitespace, Maybe (Lit CHR '':''), Many Whitespace,
            Or (word ''prompt'') (Or (word ''message'') (word ''shutdown''))],
      seqs [word ''translate'', Many1 Whitespace, word ''the'', Many1 Whitespace,
            word ''above''],
      seqs [word ''forget'', Many1 Whitespace,
            Or (word ''everything'') (Or (word ''all'') (word ''previous''))],
      seqs [Lit CHR ''<'', Many Whitespace, word ''script''],
      seqs [word ''DROP'', Many1 Whitespace, word ''TABLE''] ]"

text \<open>The flag \<open>re.IGNORECASE\<close>.\<close>

definition IGNORECASE :: bool where
  "IGNORECASE = True"

text \<open>
  \<open>sanitize_input(text)\<close>: \<open>None\<close> for a false or non-string argument and for a
  stripped text in which a pattern is found; the stripped text otherwise. The
  \<open>for\<close> loop returns at the first pattern found, which is \<open>list_ex\<close>.
\<close>

fun sanitize_input :: "json \<Rightarrow> string option" where
  "sanitize_input (JStr text) =
     (if text = [] then None
      else let text = strip text
           in if list_ex (\<lambda>pattern. re_search pattern text IGNORECASE) dangerous_patterns
              then None
              else Some text)"
| "sanitize_input _ = None"

subsection \<open>Exceptions\<close>

text \<open>
  The exceptions that can arise in the view function, with the classes its
  \<open>except\<close> clauses name. \<open>ConnectTimeout\<close> and \<open>ReadTimeout\<close> are the subclasses
  of \<open>requests.exceptions.Timeout\<close>; \<open>HTTPError\<close> carries the status that
  \<open>raise_for_status\<close> refused; \<open>MissingSchema\<close> is what \<open>requests\<close> raises for a URL
  without a scheme. \<open>BadRequest\<close> and \<open>UnsupportedMediaType\<close> are the werkzeug
  exceptions of \<open>request.json\<close>; \<open>AttributeError\<close> is Python's own. Every one of them
  is an \<open>Exception\<close>.
\<close>

datatype exn =
    ConnectTimeout
  | ReadTimeout
  | ConnectionError
  | HTTPError nat
  | TooManyRedirects
  | MissingSchema
  | OtherRequestException string
  | BadRequest
  | UnsupportedMediaType
  | AttributeError
  | OtherException string

text \<open>\<open>isinstance(e, requests.exceptions.Timeout)\<close>.\<close>

fun is_Timeout :: "exn \<Rightarrow> bool" where
  "is_Timeout ConnectTimeout = True"
| "is_Timeout ReadTimeout = True"
| "is_Timeout _ = False"

text \<open>\<open>isinstance(e, requests.exceptions.RequestException)\<close>.\<close>

fun is_RequestException :: "exn \<Rightarrow> bool" where
  "is_RequestException ConnectTimeout = True"
| "is_RequestException ReadTimeout = True"
| "is_RequestException ConnectionError = True"
| "is_RequestException (HTTPError code) = True"
| "is_RequestException TooManyRedirects = True"
| "is_RequestException MissingSchema = True"
| "is_RequestException (OtherRequestException msg) = True"
| "is_RequestException _ = False"

subsection \<open>The incoming request and Flask's \<open>request.json\<close>\<close>

text \<open>
  What the program reads of a request: the client address (the key of the limiter),
  whether the content type announces JSON, and the body as decoded by \<open>json.loads\<close>
  (\<open>None\<close> when the body is absent or is not JSON).
\<close>

record request =
  remote_addr :: string
  is_json :: bool
  body :: "json option"

text \<open>
  The property \<open>request.json\<close> of Flask (library code): it raises
  \<open>UnsupportedMediaType\<close> when the content type is not JSON, raises \<open>BadRequest\<close>
  when the body cannot be decoded, and returns the decoded value otherwise.
\<close>

definition request_json :: "request \<Rightarrow> exn + json" where
  "request_json request =
     (if \<not> is_json request then Inl UnsupportedMediaType
      else case body request of None \<Rightarrow> Inl BadRequest | Some data \<Rightarrow> Inr data)"

subsection \<open>The outgoing call and the \<open>requests\<close> library\<close>

text \<open>The arguments of one call of \<open>requests.post\<close>.\<close>

record post_call =
  url :: "string option"
  json_arg :: json
  timeout :: nat
  headers :: "(string \<times> string) list"

text \<open>
  The response object: its status code, its text, and the result of
  \<open>response.json()\<close> (\<open>None\<close> when that raises \<open>ValueError\<close>).
\<close>

record http_response =
  status_code :: nat
  text_body :: string
  json_body :: "json option"

text \<open>
  \<open>requests.post\<close>: the URL \<open>None\<close> has no scheme, so the call raises
  \<open>MissingSchema\<close> before anything is sent; otherwise the outcome is that of the
  network, a parameter of the model.
\<close>

definition requests_post :: "(post_call \<Rightarrow> exn + http_response) \<Rightarrow> post_call \<Rightarrow> exn + http_response" where
  "requests_post net call = (case url call of None \<Rightarrow> Inl MissingSchema | Some u \<Rightarrow> net call)"

text \<open>\<open>response.raise_for_status()\<close>: an \<open>HTTPError\<close> for a status from 400 to 599.\<close>

definition raise_for_status :: "http_response \<Rightarrow> exn option" where
  "raise_for_status response =
     (if 400 \<le> status_code response \<and> status_code response < 600
      then Some (HTTPError (status_code response)) else None)"

subsection \<open>Configuration\<close>

text \<open>\<open>N8N_WEBHOOK = os.getenv("N8N_WEBHOOK_URL")\<close>: \<open>None\<close> when the variable is unset.\<close>

definition N8N_WEBHOOK :: "(string \<rightharpoonup> string) \<Rightarrow> string option" where
  "N8N_WEBHOOK environ = environ ''N8N_WEBHOOK_URL''"

definition MAX_MESSAGE_LENGTH :: nat where
  "MAX_MESSAGE_LENGTH = 500"

definition REQUEST_TIMEOUT :: nat where
  "REQUEST_TIMEOUT = 30"

subsection \<open>The view function \<open>chat\<close>\<close>

text \<open>A response is the \<open>jsonify\<close>-ed body with the status code.\<close>

type_synonym response = "json \<times> nat"

text \<open>\<open>jsonify({"error": msg}), code\<close>.\<close>

definition error_response :: "string \<Rightarrow> nat \<Rightarrow> response" where
  "error_response msg code = (JObj [(''error'', JStr msg)], code)"

text \<open>\<open>str(n)\<close> for the number in the f-string.\<close>

fun str_nat :: "nat \<Rightarrow> string" where
  "str_nat n =
     (if n < 10 then [''0123456789'' ! n]
      else str_nat (n div 10) @ [''0123456789'' ! (n mod 10)])"

text \<open>
  The arguments that \<open>chat\<close> gives to \<open>requests.post\<close>: the configured URL, the
  \<open>json=\<close> dict, the timeout and the headers.
\<close>

definition webhook_call :: "(string \<rightharpoonup> string) \<Rightarrow> string \<Rightarrow> json \<Rightarrow> post_call" where
  "webhook_call environ clean_msg session_id =
     \<lparr> url = N8N_WEBHOOK environ,
       json_arg = JObj [(''message'', JStr clean_msg), (''sessionId'', session_id)],
       timeout = REQUEST_TIMEOUT,
       headers = [(''Content-Type'', ''application/json'')] \<rparr>"

text \<open>
  The body of the \<open>try\<close> statement: the result is the response returned or the
  exception raised, with the calls of \<open>requests.post\<close> made on the way.
  \<open>data.get\<close> exists only on a dict: on any other true value it raises
  \<open>AttributeError\<close>.
\<close>

definition chat_try ::
  "(string \<rightharpoonup> string) \<Rightarrow> (post_call \<Rightarrow> exn + http_response) \<Rightarrow> request
     \<Rightarrow> (exn + response) \<times> post_call list" where
  "chat_try environ net request =
     (case request_json request of
        Inl e \<Rightarrow> (Inl e, [])
      | Inr data \<Rightarrow>
          if \<not> truthy data then (Inr (error_response ''No se recibieron datos'' 400), [])
          else (case data of
            JObj kvs \<Rightarrow>
              (let user_msg = dict_get kvs ''message'' JNull;
                   session_id = dict_get kvs ''sessionId'' (JStr ''anonymous'')
               in if \<not> truthy user_msg
                  then (Inr (error_response ''El campo 'message' es requerido'' 400), [])
                  else (case sanitize_input user_msg of
                    None \<Rightarrow>
                      (Inr (error_response
                         (''Mensaje inv'' @ [CHR 0xE1] @ ''lido o contiene patrones prohibidos'')
                         400), [])
                  | Some clean_msg \<Rightarrow>
                      if length clean_msg > MAX_MESSAGE_LENGTH
                      then (Inr (error_response
                         (''El mensaje excede el l'' @ [CHR 0xED] @ ''mite de ''
                            @ str_nat MAX_MESSAGE_LENGTH @ '' caracteres'') 400), [])
                      else if length clean_msg < 3
                      then (Inr (error_response ''El mensaje es demasiado corto'' 400), [])
                      else
                        (let call = webhook_call environ clean_msg session_id
                         in (case requests_post net call of
                               Inl e \<Rightarrow> (Inl e, [call])
                             | Inr response \<Rightarrow>
                                 (case raise_for_status response of
                                    Some e \<Rightarrow> (Inl e, [call])
                                  | None \<Rightarrow>
                                      (case json_body response of
                                         Some j \<Rightarrow> (Inr (j, 200), [call])
                                       | None \<Rightarrow>
                                           (Inr (JObj [(''response'',
                                                        JStr (text_body response))], 200),
                                            [call])))))))
          | _ \<Rightarrow> (Inl AttributeError, [])))"

text \<open>
  The whole function: the three \<open>except\<close> clauses in the order of the source. The
  third component is what \<open>app.logger.error\<close> was given.
\<close>

definition chat ::
  "(string \<rightharpoonup> string) \<Rightarrow> (post_call \<Rightarrow> exn + http_response) \<Rightarrow> request
     \<Rightarrow> response \<times> post_call list \<times> exn list" where
  "chat environ net request =
     (case chat_try environ net request of
        (Inr resp, calls) \<Rightarrow> (resp, calls, [])
      | (Inl e, calls) \<Rightarrow>
          if is_Timeout e
          then (error_response
                  (''El servicio tard'' @ [CHR 0xF3]
                     @ '' demasiado en responder. Intenta nuevamente.'') 504, calls, [])
          else if is_RequestException e
          then (error_response ''Error al conectar con el servicio de consultas'' 503,
                calls, [])
          else (error_response
                  (''Ocurri'' @ [CHR 0xF3]
                     @ '' un error inesperado. Por favor intenta nuevamente.'') 500,
                calls, [e]))"

subsection \<open>The sanitizer as a whole\<close>

text \<open>
  The input sanitizer of the spec is, in the program, \<open>sanitize_input\<close> followed by the
  two length checks of \<open>chat\<close> (the lines from \<open>clean_msg = sanitize_input(user_msg)\<close>
  to the second length check), in the order of the source. The three rejections are
  the three error answers of those lines.
\<close>

datatype rejection = InvalidOrBlocked | TooLong | TooShort

definition sanitize :: "json \<Rightarrow> rejection + string" where
  "sanitize user_msg =
     (case sanitize_input user_msg of
        None \<Rightarrow> Inl InvalidOrBlocked
      | Some clean_msg \<Rightarrow>
          if length clean_msg > MAX_MESSAGE_LENGTH then Inl TooLong
          else if length clean_msg < 3 then Inl TooShort
          else Inr clean_msg)"

subsection \<open>The rate limit in front of \<open>chat\<close>\<close>

text \<open>\<open>ratelimit_handler\<close>, registered for status 429.\<close>

definition ratelimit_handler :: response where
  "ratelimit_handler =
     error_response
       ''Demasiadas solicitudes. Por favor espera un momento antes de intentar nuevamente.''
       429"

text \<open>
  The decorated view: when the limiter refuses the request the view function is not
  called and the 429 handler answers; \<open>allowed\<close> is the limiter's decision.
\<close>

definition limited_chat ::
  "bool \<Rightarrow> (string \<rightharpoonup> string) \<Rightarrow> (post_call \<Rightarrow> exn + http_response) \<Rightarrow> request
     \<Rightarrow> response \<times> post_call list \<times> exn list" where
  "limited_chat allowed environ net request =
     (if allowed then chat environ net request else (ratelimit_handler, [], []))"

text \<open>
  Modelled from the spec: the counter of the rate limiter (the limiter is the
  \<open>flask_limiter\<close> package, which is not part of the repository's source). The spec
  has one counter per identity and window, held in memory; the identity is the client
  address and time is in seconds.
\<close>

record counter =
  window_start :: real
  hits :: nat

type_synonym limiter_state = "string \<rightharpoonup> counter"

text \<open>
  Modelled from the spec: the check of the rate limiter, which is missing from the
  source. A counter is created on the first request of an identity, incremented per
  request, and reset when its window expires; a request is allowed while the count
  of its window stays within the amount.
\<close>

definition limiter_check ::
  "nat \<Rightarrow> real \<Rightarrow> limiter_state \<Rightarrow> real \<Rightarrow> string \<Rightarrow> bool \<times> limiter_state" where
  "limiter_check amount period st now identity =
     (case st identity of
        None \<Rightarrow> (1 \<le> amount, st(identity \<mapsto> \<lparr> window_start = now, hits = 1 \<rparr>))
      | Some c \<Rightarrow>
          if window_start c + period \<le> now
          then (1 \<le> amount, st(identity \<mapsto> \<lparr> window_start = now, hits = 1 \<rparr>))
          else (hits c + 1 \<le> amount, st(identity \<mapsto> c\<lparr> hits := hits c + 1 \<rparr>)))"

text \<open>
  Modelled from the spec: one request to \<open>/chat\<close> arriving at time \<open>now\<close>. The
  limiter, missing from the source, decides with the limit of the decorator,
  "3 per minute", keyed by the client address; the decorated view answers.
  The \<open>default_limits\<close> are not consulted: a limit given by the decorator
  replaces them on its route.
\<close>

definition serve_chat ::
  "(string \<rightharpoonup> string) \<Rightarrow> (post_call \<Rightarrow> exn + http_response) \<Rightarrow> limiter_state \<Rightarrow> real
     \<Rightarrow> request \<Rightarrow> (response \<times> post_call list \<times> exn list) \<times> limiter_state" where
  "serve_chat environ net st now request =
     (let (allowed, st') = limiter_check 3 60 st now (remote_addr request)
      in (limited_chat allowed environ net request, st'))"

text \<open>
  Modelled from the spec: the requests to \<open>/chat\<close> served one after the other, each
  with its arrival time, the state of the limiter (missing from the source) being
  passed along.
\<close>

fun serve_all ::
  "(string \<rightharpoonup> string) \<Rightarrow> (post_call \<Rightarrow> exn + http_response) \<Rightarrow> limiter_state
     \<Rightarrow> (real \<times> request) list
     \<Rightarrow> (response \<times> post_call list \<times> exn list) list \<times> limiter_state" where
  "serve_all environ net st [] = ([], st)"
| "serve_all environ net st ((now, request) # rest) =
     (let (out, st') = serve_chat environ net st now request;
          (outs, st'') = serve_all environ net st' rest
      in (out # outs, st''))"

text \<open>
  Modelled from the spec: the rate budget of an identity, which has two tiers, both
  enforced: at most 3 requests per minute on the chat route, and at most 20 per hour
  and 100 per day over all routes (the \<open>default_limits\<close> of the source, which it
  calls the global limits). Each limit has its own counters; a request is within the
  budget when every limit allows it.
\<close>

definition budget_check ::
  "limiter_state \<times> limiter_state \<times> limiter_state \<Rightarrow> real \<Rightarrow> string
     \<Rightarrow> bool \<times> (limiter_state \<times> limiter_state \<times> limiter_state)" where
  "budget_check sts now identity =
     (case sts of (per_minute, per_hour, per_day) \<Rightarrow>
        (let (in_minute, per_minute') = limiter_check 3 60 per_minute now identity;
             (in_hour, per_hour') = limiter_check 20 3600 per_hour now identity;
             (in_day, per_day') = limiter_check 100 86400 per_day now identity
         in (in_minute \<and> in_hour \<and> in_day, (per_minute', per_hour', per_day'))))"

text \<open>
  Modelled from the spec: for requests to \<open>/chat\<close> arriving one after the other,
  whether each is within the budget of its identity.
\<close>

fun budget_all ::
  "limiter_state \<times> limiter_state \<times> limiter_state \<Rightarrow> (real \<times> request) list \<Rightarrow> bool list" where
  "budget_all sts [] = []"
| "budget_all sts ((now, request) # rest) =
     (let (ok, sts') = budget_check sts now (remote_addr request)
      in ok # budget_all sts' rest)"

subsection \<open>Sample inputs\<close>

text \<open>An environment in which the webhook URL is configured.\<close>

definition sample_environ :: "string \<rightharpoonup> string" where
  "sample_environ = [''N8N_WEBHOOK_URL'' \<mapsto> ''https://n8n.example/webhook/chat'']"

text \<open>A JSON request from one client carrying the given message and no session id,
  and a request from another client.\<close>

definition sample_request :: "string \<Rightarrow> request" where
  "sample_request msg =
     \<lparr> remote_addr = ''203.0.113.7'', is_json = True,
       body = Some (JObj [(''message'', JStr msg)]) \<rparr>"

definition sample_request_other :: request where
  "sample_request_other =
     \<lparr> remote_addr = ''198.51.100.9'', is_json = True,
       body = Some (JObj [(''message'', JStr ''good morning'')]) \<rparr>"





text \<open>The same request sent \<open>n\<close> times, once every 61 seconds from time 0.\<close>

definition spaced_requests :: "nat \<Rightarrow> request \<Rightarrow> (real \<times> request) list" where
  "spaced_requests n request = map (\<lambda>k. (61 * real k, request)) [0..<n]"


definition net_raises :: "exn \<Rightarrow> post_call \<Rightarrow> exn + http_response" where
  "net_raises e call = Inl e"

section \<open>Properties\<close>

subsection \<open>Auxiliary facts about the handler\<close>

lemma sanitize_input_Some_JStr:
  "sanitize_input m = Some c \<Longrightarrow> \<exists>s. m = JStr s \<and> s \<noteq> [] \<and> c = strip s
     \<and> \<not> list_ex (\<lambda>pattern. re_search pattern (strip s) IGNORECASE) dangerous_patterns"
  by (cases m) (auto simp: Let_def split: if_splits)

lemma sanitize_input_truthy: "sanitize_input m = Some c \<Longrightarrow> truthy m"
  by (auto dest: sanitize_input_Some_JStr)

text \<open>Past validation, the \<open>try\<close> body is the call and what follows it.\<close>

lemma chat_try_valid:
  assumes "request_json request = Inr (JObj kvs)"
    and "map_of kvs ''message'' = Some user_msg"
    and "sanitize_input user_msg = Some clean_msg"
    and "3 \<le> length clean_msg" and "length clean_msg \<le> 500"
  shows "chat_try environ net request =
     (case requests_post net (webhook_call environ clean_msg (dict_get kvs ''sessionId'' (JStr ''anonymous''))) of
        Inl e \<Rightarrow> Inl e
      | Inr response \<Rightarrow>
          (case raise_for_status response of
             Some e \<Rightarrow> Inl e
           | None \<Rightarrow>
               (case json_body response of
                  Some j \<Rightarrow> Inr (j, 200)
                | None \<Rightarrow> Inr (JObj [(''response'', JStr (text_body response))], 200))),
      [webhook_call environ clean_msg (dict_get kvs ''sessionId'' (JStr ''anonymous''))])"
proof -
  have "kvs \<noteq> []" using assms(2) by auto
  moreover have "truthy user_msg" using assms(3) by (rule sanitize_input_truthy)
  ultimately show ?thesis
    using assms
    by (simp add: chat_try_def dict_get_def MAX_MESSAGE_LENGTH_def Let_def
        split: sum.splits option.splits)
qed

text \<open>A call is made only past validation.\<close>

lemma chat_try_calls:
  assumes "snd (chat_try environ net request) \<noteq> []"
  shows "\<exists>kvs s. request_json request = Inr (JObj kvs)
            \<and> map_of kvs ''message'' = Some (JStr s)
            \<and> 3 \<le> length (strip s) \<and> length (strip s) \<le> 500
            \<and> (\<forall>pattern\<in>set dangerous_patterns. \<not> re_search pattern (strip s) IGNORECASE)"
proof (cases "request_json request")
  case (Inl e)
  with assms show ?thesis by (simp add: chat_try_def)
next
  case (Inr data)
  show ?thesis
  proof (cases data)
    case (JObj kvs)
    let ?m = "dict_get kvs ''message'' JNull"
    from assms Inr JObj obtain c where c: "sanitize_input ?m = Some c"
      and len: "3 \<le> length c" "length c \<le> 500"
      by (auto simp: chat_try_def Let_def MAX_MESSAGE_LENGTH_def split: if_splits option.splits)
    from sanitize_input_Some_JStr [OF c] obtain s where s: "?m = JStr s" "c = strip s"
      "\<not> list_ex (\<lambda>pattern. re_search pattern (strip s) IGNORECASE) dangerous_patterns"
      by blast
    from s(1) have "map_of kvs ''message'' = Some (JStr s)"
      by (auto simp: dict_get_def split: option.splits)
    with Inr JObj s len show ?thesis by (auto simp: list_ex_iff)
  qed (use assms Inr in \<open>auto simp: chat_try_def split: if_splits\<close>)
qed

lemma chat_calls: "fst (snd (chat environ net request)) = snd (chat_try environ net request)"
  by (cases "chat_try environ net request") (auto simp: chat_def split: sum.splits)

text \<open>The branch \<open>if not data\<close> answers a body that decodes to a false value.\<close>

lemma chat_false_body_400:
  "\<not> truthy data \<Longrightarrow>
     chat environ net \<lparr> remote_addr = addr, is_json = True, body = Some data \<rparr> =
       (error_response ''No se recibieron datos'' 400, [], [])"
  by (simp add: chat_def chat_try_def request_json_def)

text \<open>Facts about the sample inputs.\<close>

lemma sample_request_json:
  "request_json (sample_request msg) = Inr (JObj [(''message'', JStr msg)])"
  by (simp add: request_json_def sample_request_def)

lemma sanitize_hello: "sanitize_input (JStr ''hello there'') = Some ''hello there''"
  by code_simp

lemma hello_len: "3 \<le> length ''hello there''" "length ''hello there'' \<le> 500"
  by simp_all

lemma hello_message:
  "map_of [(''message'', JStr ''hello there'')] ''message'' = Some (JStr ''hello there'')"
  by simp

lemma str_nat_500: "str_nat 500 = ''500''"
  by code_simp

text \<open>\<open>sanitize\<close> is the validation that \<open>chat\<close> performs on a true message: its
  rejections are the three error answers, and its result is the message forwarded.\<close>

lemma chat_try_sanitize:
  assumes "request_json request = Inr (JObj kvs)"
    and "map_of kvs ''message'' = Some user_msg" and "truthy user_msg"
  shows "case sanitize user_msg of
        Inl InvalidOrBlocked \<Rightarrow>
          chat_try environ net request =
            (Inr (error_response
               (''Mensaje inv'' @ [CHR 0xE1] @ ''lido o contiene patrones prohibidos'') 400), [])
      | Inl TooLong \<Rightarrow>
          chat_try environ net request =
            (Inr (error_response
               (''El mensaje excede el l'' @ [CHR 0xED] @ ''mite de 500 caracteres'') 400), [])
      | Inl TooShort \<Rightarrow>
          chat_try environ net request =
            (Inr (error_response ''El mensaje es demasiado corto'' 400), [])
      | Inr clean_msg \<Rightarrow>
          snd (chat_try environ net request) =
            [webhook_call environ clean_msg (dict_get kvs ''sessionId'' (JStr ''anonymous''))]"
proof -
  have "kvs \<noteq> []" using assms(2) by auto
  then show ?thesis
    using assms
    by (auto simp: sanitize_def chat_try_def dict_get_def MAX_MESSAGE_LENGTH_def Let_def
        str_nat_500 split: option.splits sum.splits)
qed

lemma sanitize_Inr_iff:
  "sanitize user_msg = Inr clean_msg \<longleftrightarrow>
     sanitize_input user_msg = Some clean_msg \<and> 3 \<le> length clean_msg \<and> length clean_msg \<le> 500"
  by (auto simp: sanitize_def MAX_MESSAGE_LENGTH_def split: option.splits if_splits)

lemma sample_chat_calls:
  "fst (snd (chat sample_environ net (sample_request ''hello there'')))
     = [webhook_call sample_environ ''hello there'' (JStr ''anonymous'')]"
  unfolding chat_calls
    chat_try_valid [OF sample_request_json hello_message sanitize_hello hello_len]
  by (simp add: dict_get_def)

subsection \<open>Auxiliary facts about \<open>strip\<close>\<close>

lemma last_dropWhile: "dropWhile P xs \<noteq> [] \<Longrightarrow> last (dropWhile P xs) = last xs"
  by (induction xs) (auto split: if_splits)

text \<open>A stripped text is empty or has no whitespace at either end, and such a text
  is left alone by \<open>strip\<close>.\<close>

lemma strip_ends:
  "strip s = [] \<or> (\<not> isspace (hd (strip s)) \<and> \<not> isspace (last (strip s)))"
proof (cases "strip s = []")
  case False
  let ?a = "dropWhile isspace s"
  let ?b = "dropWhile isspace (rev ?a)"
  from False have b: "?b \<noteq> []" by (simp add: strip_def)
  have a: "?a \<noteq> []"
  proof
    assume "?a = []"
    then have "?b = []" by (simp only: rev.simps dropWhile.simps)
    with b show False by simp
  qed
  have "\<not> isspace (hd ?b)" using b by (rule hd_dropWhile)
  moreover have "last ?b = hd ?a"
    using last_dropWhile [OF b] a by (simp add: last_rev)
  moreover have "\<not> isspace (hd ?a)" using a by (rule hd_dropWhile)
  ultimately show ?thesis using b by (simp add: strip_def hd_rev last_rev)
qed simp

lemma strip_fixed:
  assumes "s = [] \<or> (\<not> isspace (hd s) \<and> \<not> isspace (last s))"
  shows "strip s = s"
proof (cases "s = []")
  case True
  then show ?thesis by (simp add: strip_def)
next
  case False
  with assms have h: "\<not> isspace (hd s)" and l: "\<not> isspace (last s)" by auto
  from False h have 1: "dropWhile isspace s = s" by (cases s) auto
  from False l have 2: "dropWhile isspace (rev s) = rev s"
    by (cases "rev s") (auto simp: last_rev [symmetric] hd_rev)
  show ?thesis by (simp add: strip_def 1 2)
qed

lemma strip_idem: "strip (strip s) = strip s"
  by (rule strip_fixed) (rule strip_ends)

text \<open>Whitespace around a text does not change what \<open>strip\<close> returns.\<close>

lemma strip_pad:
  assumes "\<forall>c\<in>set w1. isspace c" and "\<forall>c\<in>set w2. isspace c"
  shows "strip (w1 @ s @ w2) = strip s"
proof -
  have 1: "dropWhile isspace (w1 @ s @ w2) = dropWhile isspace (s @ w2)"
    by (rule dropWhile_append2) (use assms(1) in auto)
  show ?thesis
  proof (cases "\<forall>c\<in>set s. isspace c")
    case True
    then have "dropWhile isspace (s @ w2) = []" "dropWhile isspace s = []"
      using assms(2) by auto
    then show ?thesis by (simp only: strip_def 1)
  next
    case False
    then have "dropWhile isspace (s @ w2) = dropWhile isspace s @ w2"
      by (auto simp: dropWhile_append1)
    moreover have "dropWhile isspace (rev w2 @ rev (dropWhile isspace s))
        = dropWhile isspace (rev (dropWhile isspace s))"
      by (rule dropWhile_append2) (use assms(2) in auto)
    ultimately show ?thesis by (simp add: strip_def 1)
  qed
qed

lemma isspace_py_lower: "isspace (py_lower c) = isspace c"
  by (simp add: isspace_def py_lower_def Let_def)

lemma py_lower_idem: "py_lower (py_lower c) = py_lower c"
  by (simp add: py_lower_def Let_def)

lemma strip_map_py_lower: "strip (map py_lower s) = map py_lower (strip s)"
proof -
  have "isspace \<circ> py_lower = isspace" by (auto simp: fun_eq_iff isspace_py_lower)
  then show ?thesis by (simp add: strip_def dropWhile_map rev_map)
qed

text \<open>A string returned by \<open>sanitize_input\<close> is the stripped input, and is
  returned again unless it is empty.\<close>

lemma sanitize_input_result:
  assumes "sanitize_input (JStr x) = Some y"
  shows "y = strip x \<and> sanitize_input (JStr y) = (if y = [] then None else Some y)"
proof -
  from sanitize_input_Some_JStr [OF assms] have y: "y = strip x"
    and no: "\<not> list_ex (\<lambda>pattern. re_search pattern (strip x) IGNORECASE) dangerous_patterns"
    by auto
  have "strip y = y" unfolding y by (rule strip_idem)
  with y no show ?thesis by (simp add: Let_def)
qed

subsection \<open>The matcher finds exactly the matching substrings\<close>

inductive_cases matches_NeverE: "matches ic Never w"
inductive_cases matches_EmptyE: "matches ic Empty w"
inductive_cases matches_LitE: "matches ic (Lit c) w"
inductive_cases matches_WhitespaceE: "matches ic Whitespace w"
inductive_cases matches_SeqE: "matches ic (Seq r s) w"
inductive_cases matches_OrE: "matches ic (Or r s) w"
inductive_cases matches_MaybeE: "matches ic (Maybe r) w"
inductive_cases matches_Many1E: "matches ic (Many1 r) w"

lemma matches_nil_nullable: "matches ic r w \<Longrightarrow> w = [] \<Longrightarrow> nullable r"
  by (induction rule: matches.induct) auto

lemma nullable_matches_nil: "nullable r \<Longrightarrow> matches ic r []"
proof (induction r)
  case (Seq r s)
  then have "matches ic (Seq r s) ([] @ [])" by (intro m_Seq) auto
  then show ?case by simp
next
  case (Many1 r)
  then have "matches ic (Many1 r) ([] @ [])" by (intro m_Many1 m_Many0) auto
  then show ?case by simp
qed (auto intro: matches.intros)

lemma nullable_iff: "nullable r \<longleftrightarrow> matches ic r []"
  using matches_nil_nullable nullable_matches_nil by blast

lemma matches_deriv: "matches ic r x \<Longrightarrow> x = d # w \<Longrightarrow> matches ic (deriv ic d r) w"
proof (induction arbitrary: w rule: matches.induct)
  case (m_Seq r u s v)
  show ?case
  proof (cases u)
    case Nil
    with m_Seq have "nullable r" "matches ic (deriv ic d s) w"
      by (auto simp: nullable_iff [of r ic])
    then show ?thesis by (auto intro: m_OrR)
  next
    case (Cons a u')
    with m_Seq have "matches ic (Seq (deriv ic d r) s) (u' @ v)" "w = u' @ v"
      by (auto intro: matches.m_Seq)
    then show ?thesis by (auto intro: m_OrL)
  qed
next
  case (m_ManyS r u v)
  show ?case
  proof (cases u)
    case Nil
    with m_ManyS show ?thesis by auto
  next
    case (Cons a u')
    with m_ManyS have "matches ic (Seq (deriv ic d r) (Many r)) (u' @ v)" "w = u' @ v"
      by (auto intro: matches.m_Seq)
    then show ?thesis by simp
  qed
next
  case (m_Many1 r u v)
  show ?case
  proof (cases u)
    case Nil
    with m_Many1 show ?thesis by auto
  next
    case (Cons a u')
    with m_Many1 have "matches ic (Seq (deriv ic d r) (Many r)) (u' @ v)" "w = u' @ v"
      by (auto intro: matches.m_Seq)
    then show ?thesis by simp
  qed
qed (auto intro: matches.intros)

lemma deriv_matches: "matches ic (deriv ic d r) w \<Longrightarrow> matches ic r (d # w)"
proof (induction r arbitrary: w)
  case (Lit c)
  then show ?case
    by (auto split: if_splits elim: matches_EmptyE matches_NeverE intro: m_Lit)
next
  case Whitespace
  then show ?case
    by (auto split: if_splits elim: matches_EmptyE matches_NeverE intro: m_Whitespace)
next
  case (Seq r s)
  have left: "matches ic (Seq r s) (d # w)" if "matches ic (Seq (deriv ic d r) s) w"
  proof -
    from that obtain u v where "w = u @ v" "matches ic (deriv ic d r) u" "matches ic s v"
      by (auto elim: matches_SeqE)
    with Seq.IH(1) have "matches ic (Seq r s) ((d # u) @ v)" by (intro m_Seq) auto
    with \<open>w = u @ v\<close> show ?thesis by simp
  qed
  have right: "matches ic (Seq r s) (d # w)" if "nullable r" "matches ic (deriv ic d s) w"
  proof -
    from that Seq.IH(2) have "matches ic (Seq r s) ([] @ (d # w))"
      by (intro m_Seq) (auto simp: nullable_iff [of r ic])
    then show ?thesis by simp
  qed
  from Seq.prems left right show ?case
    by (auto split: if_splits elim: matches_OrE)
next
  case (Or r s)
  then show ?case by (auto elim!: matches_OrE intro: m_OrL m_OrR)
next
  case (Many r)
  from Many.prems obtain u v where "w = u @ v" "matches ic (deriv ic d r) u" "matches ic (Many r) v"
    by (auto elim: matches_SeqE)
  with Many.IH have "matches ic (Many r) ((d # u) @ v)" by (intro m_ManyS) auto
  with \<open>w = u @ v\<close> show ?case by simp
next
  case (Many1 r)
  from Many1.prems obtain u v where "w = u @ v" "matches ic (deriv ic d r) u" "matches ic (Many r) v"
    by (auto elim: matches_SeqE)
  with Many1.IH have "matches ic (Many1 r) ((d # u) @ v)" by (intro m_Many1) auto
  with \<open>w = u @ v\<close> show ?case by simp
next
  case (Maybe r)
  then show ?case by (auto intro: m_Maybe1)
qed (auto elim: matches_NeverE)

lemma deriv_iff: "matches ic (deriv ic d r) w \<longleftrightarrow> matches ic r (d # w)"
  using matches_deriv deriv_matches by blast

lemma matches_iff_derivs:
  "matches ic r s \<longleftrightarrow> nullable (foldl (\<lambda>r d. deriv ic d r) r s)"
  by (induction s arbitrary: r) (simp_all add: nullable_iff [symmetric] deriv_iff [symmetric])

lemma re_match_iff: "re_match r ic s \<longleftrightarrow> (\<exists>u v. s = u @ v \<and> matches ic r u)"
proof (induction s arbitrary: r)
  case Nil
  then show ?case by (simp add: nullable_iff [of r ic])
next
  case (Cons d ds)
  show ?case
  proof
    assume "re_match r ic (d # ds)"
    then consider "nullable r" | "re_match (deriv ic d r) ic ds" by auto
    then show "\<exists>u v. d # ds = u @ v \<and> matches ic r u"
    proof cases
      case 1
      then have "d # ds = [] @ (d # ds) \<and> matches ic r []" by (simp add: nullable_iff [of r ic])
      then show ?thesis by blast
    next
      case 2
      then obtain u v where "ds = u @ v" "matches ic (deriv ic d r) u" using Cons.IH by blast
      then have "d # ds = (d # u) @ v \<and> matches ic r (d # u)" by (simp add: deriv_iff)
      then show ?thesis by blast
    qed
  next
    assume "\<exists>u v. d # ds = u @ v \<and> matches ic r u"
    then obtain u v where uv: "d # ds = u @ v" "matches ic r u" by blast
    show "re_match r ic (d # ds)"
    proof (cases u)
      case Nil
      with uv have "nullable r" by (simp add: nullable_iff [of r ic])
      then show ?thesis by simp
    next
      case (Cons a u')
      with uv have "ds = u' @ v" "matches ic (deriv ic d r) u'" by (auto simp: deriv_iff)
      then have "re_match (deriv ic d r) ic ds" using Cons.IH by blast
      then show ?thesis by simp
    qed
  qed
qed

lemma re_search_iff:
  "re_search r s ic \<longleftrightarrow> (\<exists>p u v. s = p @ u @ v \<and> matches ic r u)"
proof (induction s)
  case Nil
  then show ?case by (simp add: nullable_iff [of r ic])
next
  case (Cons d ds)
  show ?case
  proof
    assume "re_search r (d # ds) ic"
    then consider "re_match r ic (d # ds)" | "re_search r ds ic" by auto
    then show "\<exists>p u v. d # ds = p @ u @ v \<and> matches ic r u"
    proof cases
      case 1
      then obtain u v where "d # ds = [] @ u @ v \<and> matches ic r u"
        unfolding re_match_iff by auto
      then show ?thesis by blast
    next
      case 2
      then obtain p u v where "ds = p @ u @ v" "matches ic r u" using Cons.IH by blast
      then have "d # ds = (d # p) @ u @ v \<and> matches ic r u" by simp
      then show ?thesis by blast
    qed
  next
    assume "\<exists>p u v. d # ds = p @ u @ v \<and> matches ic r u"
    then obtain p u v where puv: "d # ds = p @ u @ v" "matches ic r u" by blast
    show "re_search r (d # ds) ic"
    proof (cases p)
      case Nil
      with puv have "re_match r ic (d # ds)" unfolding re_match_iff by auto
      then show ?thesis by simp
    next
      case (Cons a p')
      with puv have "ds = p' @ u @ v" by simp
      with puv(2) have "re_search r ds ic" using Cons.IH by blast
      then show ?thesis by simp
    qed
  qed
qed

text \<open>Under \<open>re.IGNORECASE\<close> the matcher sees the text only through \<open>py_lower\<close>.\<close>

lemma deriv_py_lower: "deriv True (py_lower d) r = deriv True d r"
  by (induction r) (simp_all add: lit_eq_def py_lower_idem isspace_py_lower)

lemma re_match_py_lower: "re_match r True (map py_lower s) = re_match r True s"
  by (induction s arbitrary: r) (simp_all add: deriv_py_lower)

lemma re_search_py_lower: "re_search r (map py_lower s) True = re_search r s True"
  by (induction s) (simp_all add: deriv_py_lower re_match_py_lower)







lemma ignore_pattern_matches:
  "matches IGNORECASE (dangerous_patterns ! 0) ''ignore all instructions''"
  unfolding matches_iff_derivs by code_simp

subsection \<open>Auxiliary facts about the limiter\<close>

lemma serve_all_Cons:
  "fst (serve_all e n st ((t, r) # xs)) =
     fst (serve_chat e n st t r) # fst (serve_all e n (snd (serve_chat e n st t r)) xs)"
  "snd (serve_all e n st ((t, r) # xs)) = snd (serve_all e n (snd (serve_chat e n st t r)) xs)"
  by (simp_all add: split_beta Let_def)

lemma serve_all_append:
  "fst (serve_all e n st (xs @ ys)) =
     fst (serve_all e n st xs) @ fst (serve_all e n (snd (serve_all e n st xs)) ys)"
  "snd (serve_all e n st (xs @ ys)) = snd (serve_all e n (snd (serve_all e n st xs)) ys)"
  by (induction xs arbitrary: st) (auto simp: split_beta Let_def)

lemma serve_all_length: "length (fst (serve_all e n st xs)) = length xs"
  by (induction xs arbitrary: st) (auto simp: split_beta Let_def)

text \<open>A request of one identity leaves the counter of every other identity alone.\<close>

lemma serve_chat_other:
  "remote_addr r \<noteq> a \<Longrightarrow> snd (serve_chat e n st t r) a = st a"
  by (simp add: serve_chat_def limiter_check_def split_beta Let_def split: option.splits)

lemma serve_all_other:
  "\<forall>(t, r)\<in>set xs. remote_addr r \<noteq> a \<Longrightarrow> snd (serve_all e n st xs) a = st a"
  by (induction xs arbitrary: st) (auto simp: split_beta Let_def serve_chat_other)

lemma serve_chat_new_window:
  assumes "remote_addr r = a"
    and "st a = None \<or> (\<exists>c. st a = Some c \<and> window_start c + 60 \<le> t)"
  shows "fst (serve_chat e n st t r) = chat e n r"
    and "snd (serve_chat e n st t r) a = Some \<lparr> window_start = t, hits = 1 \<rparr>"
  using assms
  by (auto simp: serve_chat_def limiter_check_def limited_chat_def split: option.splits)

lemma serve_chat_same_window:
  assumes "remote_addr r = a" and "st a = Some \<lparr> window_start = t0, hits = k \<rparr>"
    and "t < t0 + 60"
  shows "fst (serve_chat e n st t r) =
           (if k < 3 then chat e n r else (ratelimit_handler, [], []))"
    and "snd (serve_chat e n st t r) a = Some \<lparr> window_start = t0, hits = k + 1 \<rparr>"
  using assms
  by (auto simp: serve_chat_def limiter_check_def limited_chat_def)

text \<open>Requests of one identity that arrive 61 seconds apart are all served.\<close>

lemma serve_all_spaced:
  assumes "remote_addr r = a"
    and "st a = None \<or> (\<exists>c. st a = Some c \<and> window_start c + 60 \<le> 61 * real i)"
  shows "fst (serve_all e n st (map (\<lambda>k. (61 * real k, r)) [i..<i + m]))
     = replicate m (chat e n r)"
  using assms(2)
proof (induction m arbitrary: i st)
  case 0
  then show ?case by simp
next
  case (Suc m)
  let ?st = "snd (serve_chat e n st (61 * real i) r)"
  have up: "[i..<i + Suc m] = i # [Suc i..<Suc i + m]" by (simp add: upt_conv_Cons)
  from serve_chat_new_window [where st = st and t = "61 * real i", OF assms(1) Suc.prems]
  have out: "fst (serve_chat e n st (61 * real i) r) = chat e n r"
    and st': "?st a = Some \<lparr> window_start = 61 * real i, hits = 1 \<rparr>" by auto
  from st' have "?st a = None \<or> (\<exists>c. ?st a = Some c \<and> window_start c + 60 \<le> 61 * real (Suc i))"
    by simp
  from Suc.IH [where st = ?st and i = "Suc i", OF this] out show ?case
    unfolding up by (simp add: serve_all_Cons del: upt_Suc serve_all.simps)
qed

section \<open>The claims\<close>

subsection \<open>C1: what reaches the webhook\<close>

text \<open>
  C1. The claim: \<open>requests.post\<close> is called only for a message that passed
  sanitization and an identity that has not exceeded its rate budget. The budget of
  the spec has the limit of the route, 3 per minute, and the global limits, 20 per
  hour and 100 per day, which the source lists as \<open>default_limits\<close> under the comment
  that they are the global limits. On the chat route only the limit of the decorator
  is enforced. One client sending the same valid message every 61 seconds, 21 times
  from time 0 to time 1220, is answered by \<open>chat\<close> every time, and every answer
  makes the downstream call; the budget admits the first 20 of these requests and
  not the 21st, which exceeds 20 per hour.
\<close>

theorem twenty_first_request_forwarded:
  "fst (serve_all sample_environ net Map.empty
          (spaced_requests 21 (sample_request ''hello there'')))
     = replicate 21 (chat sample_environ net (sample_request ''hello there''))
   \<and> fst (snd (chat sample_environ net (sample_request ''hello there'')))
     = [webhook_call sample_environ ''hello there'' (JStr ''anonymous'')]
   \<and> budget_all (Map.empty, Map.empty, Map.empty)
        (spaced_requests 21 (sample_request ''hello there''))
     = replicate 20 True @ [False]"
proof -
  have id: "remote_addr (sample_request ''hello there'') = ''203.0.113.7''"
    by (simp add: sample_request_def)
  have fresh: "(Map.empty :: limiter_state) ''203.0.113.7'' = None
      \<or> (\<exists>c. (Map.empty :: limiter_state) ''203.0.113.7'' = Some c
            \<and> window_start c + 60 \<le> 61 * real 0)" by simp
  have served: "fst (serve_all sample_environ net Map.empty
          (spaced_requests 21 (sample_request ''hello there'')))
     = replicate 21 (chat sample_environ net (sample_request ''hello there''))"
    unfolding spaced_requests_def
    using serve_all_spaced [where st = Map.empty and i = 0 and m = 21, OF id fresh] by simp
  have budget: "budget_all (Map.empty, Map.empty, Map.empty)
        (spaced_requests 21 (sample_request ''hello there''))
     = replicate 20 True @ [False]"
    by code_simp
  from served sample_chat_calls budget show ?thesis by blast
qed

text \<open>
  What does hold of the program: a call is made only if the limiter allowed the
  request and the message passed sanitization, that is, the body is a JSON object
  whose \<open>message\<close> is a string, the stripped string has between 3 and 500
  characters, and none of the six patterns is found in it. This holds for whatever
  the limiter decides, and so for the limit of 3 per minute that it enforces.
\<close>

theorem downstream_call_only_if_valid:
  assumes "fst (snd (limited_chat allowed environ net request)) \<noteq> []"
  shows "allowed \<and>
     (\<exists>kvs s. request_json request = Inr (JObj kvs)
        \<and> map_of kvs ''message'' = Some (JStr s)
        \<and> 3 \<le> length (strip s) \<and> length (strip s) \<le> 500
        \<and> (\<forall>pattern\<in>set dangerous_patterns. \<not> re_search pattern (strip s) IGNORECASE))"
proof -
  from assms have a: allowed by (auto simp: limited_chat_def split: if_splits)
  with assms have "snd (chat_try environ net request) \<noteq> []"
    by (simp add: limited_chat_def chat_calls)
  from chat_try_calls [OF this] a show ?thesis by blast
qed

theorem downstream_call_only_if_valid_witness:
  "fst (snd (limited_chat True sample_environ (net_raises ConnectionError)
               (sample_request ''hello there''))) \<noteq> []
   \<and> (\<exists>kvs s. request_json (sample_request ''hello there'') = Inr (JObj kvs)
        \<and> map_of kvs ''message'' = Some (JStr s)
        \<and> 3 \<le> length (strip s) \<and> length (strip s) \<le> 500
        \<and> (\<forall>pattern\<in>set dangerous_patterns. \<not> re_search pattern (strip s) IGNORECASE))"
proof -
  have h: "fst (snd (limited_chat True sample_environ (net_raises ConnectionError)
               (sample_request ''hello there''))) \<noteq> []"
    by code_simp
  show ?thesis using downstream_call_only_if_valid [OF h] h by blast
qed

lemma serve_chat_forwards_only_if_valid:
  assumes "fst (snd (fst (serve_chat environ net st now request))) \<noteq> []"
  shows "fst (limiter_check 3 60 st now (remote_addr request)) \<and>
     (\<exists>kvs s. request_json request = Inr (JObj kvs)
        \<and> map_of kvs ''message'' = Some (JStr s)
        \<and> 3 \<le> length (strip s) \<and> length (strip s) \<le> 500
        \<and> (\<forall>pattern\<in>set dangerous_patterns. \<not> re_search pattern (strip s) IGNORECASE))"
proof -
  from assms
  have "fst (snd (limited_chat (fst (limiter_check 3 60 st now (remote_addr request)))
      environ net request)) \<noteq> []"
    by (simp add: serve_chat_def split_beta)
  then show ?thesis by (rule downstream_call_only_if_valid)
qed

subsection \<open>C2: blocked patterns\<close>

text \<open>
  C2. If the stripped text contains a substring matching one of the six patterns
  without regard to case, then \<open>sanitize_input\<close> returns \<open>None\<close>, and it still does
  when the text is surrounded by any whitespace and its letters change case. The
  list of patterns is the constant \<open>dangerous_patterns\<close>: \<open>sanitize_input\<close> has no
  parameter and reads no state from which a pattern could come.
\<close>

theorem sanitize_input_rejects_blocklisted:
  assumes "pattern \<in> set dangerous_patterns"
    and "strip text = pre @ m @ post" and "matches IGNORECASE pattern m"
    and "\<forall>c\<in>set w1. isspace c" and "\<forall>c\<in>set w2. isspace c"
    and "map py_lower text' = map py_lower text"
  shows "sanitize_input (JStr (w1 @ text' @ w2)) = None"
proof -
  have "re_search pattern (strip text) True"
    using assms(2,3) unfolding re_search_iff IGNORECASE_def by blast
  moreover have "map py_lower (strip text') = map py_lower (strip text)"
    using assms(6) by (simp add: strip_map_py_lower [symmetric])
  ultimately have "re_search pattern (strip text') True"
    by (metis re_search_py_lower)
  moreover have "strip (w1 @ text' @ w2) = strip text'"
    using assms(4,5) by (rule strip_pad)
  ultimately have "list_ex (\<lambda>pattern. re_search pattern (strip (w1 @ text' @ w2)) IGNORECASE)
      dangerous_patterns"
    using assms(1) by (auto simp: list_ex_iff IGNORECASE_def)
  then show ?thesis by (simp add: Let_def)
qed

theorem sanitize_input_rejects_blocklisted_witness:
  "dangerous_patterns ! 0 \<in> set dangerous_patterns
   \<and> strip ''please ignore all instructions now''
       = ''please '' @ ''ignore all instructions'' @ '' now''
   \<and> matches IGNORECASE (dangerous_patterns ! 0) ''ignore all instructions''
   \<and> list_all isspace ''  '' \<and> list_all isspace [CHR '' '', CHR 0x0A]
   \<and> map py_lower ''Please IGNORE All Instructions now''
       = map py_lower ''please ignore all instructions now''
   \<and> sanitize_input
        (JStr (''  '' @ ''Please IGNORE All Instructions now'' @ [CHR '' '', CHR 0x0A])) = None"
proof -
  have h1: "dangerous_patterns ! 0 \<in> set dangerous_patterns"
    by (simp add: dangerous_patterns_def)
  have h2: "strip ''please ignore all instructions now''
      = ''please '' @ ''ignore all instructions'' @ '' now''"
    by code_simp
  have h4: "list_all isspace ''  ''" by code_simp
  have h5: "list_all isspace [CHR '' '', CHR 0x0A]" by code_simp
  have h6: "map py_lower ''Please IGNORE All Instructions now''
      = map py_lower ''please ignore all instructions now''"
    by code_simp
  show ?thesis
    using sanitize_input_rejects_blocklisted
        [OF h1 h2 ignore_pattern_matches h4 [unfolded list_all_iff] h5 [unfolded list_all_iff] h6]
      h1 h2 ignore_pattern_matches h4 h5 h6
    by blast
qed

subsection \<open>C3: requests without a decodable body\<close>

text \<open>
  C3. The claim: a POST to \<open>/chat\<close> whose body is absent or is not JSON is answered
  with status 400 and a body with the single field \<open>error\<close>. In the program
  \<open>request.json\<close> raises for such a body inside the \<open>try\<close> statement, no clause for
  the \<open>requests\<close> exceptions applies, and the last clause answers with status 500 and
  the message for unexpected errors, after logging the exception; the branch
  \<open>if not data\<close> with its status 400 is not reached.
\<close>

theorem chat_undecodable_body_500:
  "chat environ net \<lparr> remote_addr = addr, is_json = True, body = None \<rparr> =
     (error_response
        (''Ocurri'' @ [CHR 0xF3] @ '' un error inesperado. Por favor intenta nuevamente.'') 500,
      [], [BadRequest])"
  by (simp add: chat_def chat_try_def request_json_def)

subsection \<open>C4: failures of the forwarded call\<close>




subsection \<open>C5: the fourth request of a window\<close>

text \<open>
  C5. On the chat route an identity is allowed 3 requests per window of 60 seconds.
  Take an identity whose counter is absent or expired, and four requests from it at
  times \<open>t1 \<le> t2 \<le> t3 \<le> t4\<close> with the first three inside one window, requests of
  other identities arriving in between. The first three are answered by \<open>chat\<close>. The
  fourth, when it arrives within 60 seconds of the first, is answered by the 429
  handler with its fixed message, \<open>chat\<close> is not run and no call goes downstream;
  when it arrives 60 seconds after the first or later, the window has rolled over
  and \<open>chat\<close> answers it. The window is the counter's: it opens with the first
  request counted in it.
\<close>

theorem fourth_request_in_window:
  assumes fresh: "st a = None \<or> (\<exists>c. st a = Some c \<and> window_start c + 60 \<le> t1)"
    and ids: "remote_addr r1 = a" "remote_addr r2 = a" "remote_addr r3 = a" "remote_addr r4 = a"
    and others: "\<forall>(t, r)\<in>set (xs1 @ xs2 @ xs3). remote_addr r \<noteq> a"
    and times: "t1 \<le> t2" "t2 \<le> t3" "t3 \<le> t4" "t3 < t1 + 60"
  shows "ratelimit_handler =
      (JObj [(''error'', JStr ''Demasiadas solicitudes. Por favor espera un momento antes de intentar nuevamente.'')], 429)
    \<and> (\<exists>o1 o2 o3. length o1 = length xs1 \<and> length o2 = length xs2 \<and> length o3 = length xs3 \<and>
      fst (serve_all environ net st
             ((t1, r1) # xs1 @ (t2, r2) # xs2 @ (t3, r3) # xs3 @ [(t4, r4)])) =
        chat environ net r1 # o1 @ chat environ net r2 # o2 @ chat environ net r3 # o3 @
        [if t4 < t1 + 60 then (ratelimit_handler, [], []) else chat environ net r4])"
proof -
  let ?serve = "serve_chat environ net" and ?all = "serve_all environ net"
  define s1 where "s1 = snd (?serve st t1 r1)"
  define s1' where "s1' = snd (?all s1 xs1)"
  define s2 where "s2 = snd (?serve s1' t2 r2)"
  define s2' where "s2' = snd (?all s2 xs2)"
  define s3 where "s3 = snd (?serve s2' t3 r3)"
  define s3' where "s3' = snd (?all s3 xs3)"
  from others have o1: "\<forall>(t, r)\<in>set xs1. remote_addr r \<noteq> a"
    and o2: "\<forall>(t, r)\<in>set xs2. remote_addr r \<noteq> a"
    and o3: "\<forall>(t, r)\<in>set xs3. remote_addr r \<noteq> a" by auto
  have out1: "fst (?serve st t1 r1) = chat environ net r1"
    and s1: "s1 a = Some \<lparr> window_start = t1, hits = 1 \<rparr>"
    unfolding s1_def using serve_chat_new_window [where st = st and t = t1, OF ids(1) fresh] by auto
  have s1': "s1' a = Some \<lparr> window_start = t1, hits = 1 \<rparr>"
    unfolding s1'_def using serve_all_other [where st = s1, OF o1] s1 by simp
  have t2: "t2 < t1 + 60" using times by simp
  have out2: "fst (?serve s1' t2 r2) = chat environ net r2"
    and s2: "s2 a = Some \<lparr> window_start = t1, hits = 2 \<rparr>"
    unfolding s2_def using serve_chat_same_window [where st = s1', OF ids(2) s1' t2] by auto
  have s2': "s2' a = Some \<lparr> window_start = t1, hits = 2 \<rparr>"
    unfolding s2'_def using serve_all_other [where st = s2, OF o2] s2 by simp
  have out3: "fst (?serve s2' t3 r3) = chat environ net r3"
    and s3: "s3 a = Some \<lparr> window_start = t1, hits = 3 \<rparr>"
    unfolding s3_def using serve_chat_same_window [where st = s2', OF ids(3) s2' times(4)] by auto
  have s3': "s3' a = Some \<lparr> window_start = t1, hits = 3 \<rparr>"
    unfolding s3'_def using serve_all_other [where st = s3, OF o3] s3 by simp
  have out4: "fst (?serve s3' t4 r4) =
      (if t4 < t1 + 60 then (ratelimit_handler, [], []) else chat environ net r4)"
  proof (cases "t4 < t1 + 60")
    case True
    with serve_chat_same_window(1) [where st = s3', OF ids(4) s3' True] show ?thesis by simp
  next
    case False
    then have "s3' a = None \<or> (\<exists>c. s3' a = Some c \<and> window_start c + 60 \<le> t4)"
      using s3' by simp
    from serve_chat_new_window(1) [where st = s3' and t = t4, OF ids(4) this] False show ?thesis by simp
  qed
  have "fst (?all st ((t1, r1) # xs1 @ (t2, r2) # xs2 @ (t3, r3) # xs3 @ [(t4, r4)])) =
      chat environ net r1 # fst (?all s1 xs1) @ chat environ net r2 # fst (?all s2 xs2)
        @ chat environ net r3 # fst (?all s3 xs3)
        @ [if t4 < t1 + 60 then (ratelimit_handler, [], []) else chat environ net r4]"
    by (simp only: serve_all_Cons serve_all_append serve_all.simps(1) fst_conv
        s1_def [symmetric] s1'_def [symmetric] s2_def [symmetric] s2'_def [symmetric]
        s3_def [symmetric] s3'_def [symmetric] out1 out2 out3 out4)
  moreover have "length (fst (?all s1 xs1)) = length xs1" "length (fst (?all s2 xs2)) = length xs2"
    "length (fst (?all s3 xs3)) = length xs3" by (rule serve_all_length)+
  moreover have "ratelimit_handler =
      (JObj [(''error'', JStr ''Demasiadas solicitudes. Por favor espera un momento antes de intentar nuevamente.'')], 429)"
    by (simp add: ratelimit_handler_def error_response_def)
  ultimately show ?thesis by blast
qed

theorem fourth_request_in_window_witness:
  "last (fst (serve_all sample_environ (net_raises ConnectionError) Map.empty
      [(0, sample_request ''hello there''), (5, sample_request_other),
       (10, sample_request ''hello there''), (20, sample_request ''hello there''),
       (59, sample_request ''hello there'')])) = (ratelimit_handler, [], [])
   \<and> last (fst (serve_all sample_environ (net_raises ConnectionError) Map.empty
      [(0, sample_request ''hello there''), (5, sample_request_other),
       (10, sample_request ''hello there''), (20, sample_request ''hello there''),
       (60, sample_request ''hello there'')]))
     = chat sample_environ (net_raises ConnectionError) (sample_request ''hello there'')"
proof -
  let ?a = "''203.0.113.7''" and ?r = "sample_request ''hello there''"
  have fresh: "Map.empty ?a = None \<or> (\<exists>c. (Map.empty :: limiter_state) ?a = Some c \<and> window_start c + 60 \<le> 0)"
    by simp
  have id: "remote_addr ?r = ?a" by (simp add: sample_request_def)
  have others: "\<forall>(t, r)\<in>set ([(5::real, sample_request_other)] @ [] @ []). remote_addr r \<noteq> ?a"
    by (simp add: sample_request_other_def)
  have times: "(0::real) \<le> 10" "(10::real) \<le> 20" "(20::real) \<le> 59" "(20::real) \<le> 60"
    "(20::real) < 0 + 60" by simp_all
  from fourth_request_in_window [where st = Map.empty and environ = sample_environ
      and net = "net_raises ConnectionError",
      OF fresh id id id id others times(1) times(2) times(3) times(5)]
  obtain o1 o2 o3 where "fst (serve_all sample_environ (net_raises ConnectionError) Map.empty
      ((0, ?r) # [(5, sample_request_other)] @ (10, ?r) # [] @ (20, ?r) # [] @ [(59, ?r)]))
    = chat sample_environ (net_raises ConnectionError) ?r # o1
      @ chat sample_environ (net_raises ConnectionError) ?r # o2
      @ chat sample_environ (net_raises ConnectionError) ?r # o3
      @ [if (59::real) < 0 + 60 then (ratelimit_handler, [], [])
         else chat sample_environ (net_raises ConnectionError) ?r]" by blast
  then have A: "last (fst (serve_all sample_environ (net_raises ConnectionError) Map.empty
      [(0, ?r), (5, sample_request_other), (10, ?r), (20, ?r), (59, ?r)]))
      = (ratelimit_handler, [], [])" by simp
  from fourth_request_in_window [where st = Map.empty and environ = sample_environ
      and net = "net_raises ConnectionError",
      OF fresh id id id id others times(1) times(2) times(4) times(5)]
  obtain p1 p2 p3 where "fst (serve_all sample_environ (net_raises ConnectionError) Map.empty
      ((0, ?r) # [(5, sample_request_other)] @ (10, ?r) # [] @ (20, ?r) # [] @ [(60, ?r)]))
    = chat sample_environ (net_raises ConnectionError) ?r # p1
      @ chat sample_environ (net_raises ConnectionError) ?r # p2
      @ chat sample_environ (net_raises ConnectionError) ?r # p3
      @ [if (60::real) < 0 + 60 then (ratelimit_handler, [], [])
         else chat sample_environ (net_raises ConnectionError) ?r]" by blast
  then have B: "last (fst (serve_all sample_environ (net_raises ConnectionError) Map.empty
      [(0, ?r), (5, sample_request_other), (10, ?r), (20, ?r), (60, ?r)]))
      = chat sample_environ (net_raises ConnectionError) ?r" by simp
  from A B show ?thesis by blast
qed

subsection \<open>C6: too short and too long\<close>



subsection \<open>C7: relaying a successful reply\<close>



subsection \<open>C8: the result of the sanitizer\<close>

text \<open>
  C8. For every string on which the sanitizer succeeds, that is, \<open>sanitize_input\<close>
  returns a string and the handler's two length checks pass, the result is exactly
  the stripped input, with nothing else changed, and sanitizing the result gives the
  same result again.
\<close>

theorem sanitize_trimmed_idempotent:
  assumes "sanitize (JStr x) = Inr y"
  shows "y = strip x \<and> sanitize (JStr y) = sanitize (JStr x)"
proof -
  from assms have s: "sanitize_input (JStr x) = Some y" and len: "3 \<le> length y" "length y \<le> 500"
    by (simp_all add: sanitize_Inr_iff)
  from len have "y \<noteq> []" by auto
  then have again: "sanitize_input (JStr y) = Some y"
    using sanitize_input_result [OF s, THEN conjunct2] by (simp only: if_False)
  have y: "y = strip x" using sanitize_input_result [OF s] by (rule conjunct1)
  from again len have "sanitize (JStr y) = Inr y" unfolding sanitize_Inr_iff by blast
  with assms have "sanitize (JStr y) = sanitize (JStr x)" by (simp only:)
  with y show ?thesis by blast
qed

theorem sanitize_trimmed_idempotent_witness:
  "sanitize (JStr ''  hello there '') = Inr ''hello there''
   \<and> ''hello there'' = strip ''  hello there ''
   \<and> sanitize (JStr ''hello there'') = sanitize (JStr ''  hello there '')"
proof -
  have h: "sanitize (JStr ''  hello there '') = Inr ''hello there''" by code_simp
  from sanitize_trimmed_idempotent [OF h] h show ?thesis by blast
qed

text \<open>A text of whitespace only is not such a string: it is rejected as too short.\<close>

lemma sanitize_blank: "sanitize (JStr ''   '') = Inl TooShort"
  by code_simp

subsection \<open>C9: the forwarded call\<close>

text \<open>
  C9. For every validated request \<open>requests.post\<close> is called exactly once, whatever
  the outcome of the call: with the configured URL, the JSON body of the two fields
  \<open>message\<close> (the sanitized message) and \<open>sessionId\<close>, the timeout 30 and the header
  \<open>Content-Type: application/json\<close>. The \<open>sessionId\<close> is the one of the request, and
  the string \<open>anonymous\<close> when the request has no such key.
\<close>

theorem chat_posts_once:
  assumes "request_json request = Inr (JObj kvs)"
    and "map_of kvs ''message'' = Some user_msg"
    and "sanitize_input user_msg = Some clean_msg"
    and "3 \<le> length clean_msg" and "length clean_msg \<le> 500"
  shows "fst (snd (chat environ net request)) =
      [\<lparr> url = environ ''N8N_WEBHOOK_URL'',
         json_arg = JObj [(''message'', JStr clean_msg),
                          (''sessionId'',
                           case map_of kvs ''sessionId'' of
                             None \<Rightarrow> JStr ''anonymous'' | Some v \<Rightarrow> v)],
         timeout = 30,
         headers = [(''Content-Type'', ''application/json'')] \<rparr>]"
  unfolding chat_def chat_try_valid [OF assms]
  by (simp add: webhook_call_def dict_get_def N8N_WEBHOOK_def REQUEST_TIMEOUT_def
      split: sum.splits option.splits)

theorem chat_posts_once_witness:
  "request_json (sample_request ''hello there'') = Inr (JObj [(''message'', JStr ''hello there'')])
   \<and> map_of [(''message'', JStr ''hello there'')] ''message'' = Some (JStr ''hello there'')
   \<and> sanitize_input (JStr ''hello there'') = Some ''hello there''
   \<and> 3 \<le> length ''hello there'' \<and> length ''hello there'' \<le> 500
   \<and> fst (snd (chat sample_environ (net_raises ConnectionError) (sample_request ''hello there''))) =
      [\<lparr> url = Some ''https://n8n.example/webhook/chat'',
         json_arg = JObj [(''message'', JStr ''hello there''), (''sessionId'', JStr ''anonymous'')],
         timeout = 30,
         headers = [(''Content-Type'', ''application/json'')] \<rparr>]"
proof -
  show ?thesis
    using chat_posts_once [OF sample_request_json hello_message sanitize_hello hello_len,
        of sample_environ "net_raises ConnectionError"]
      sample_request_json hello_message sanitize_hello hello_len
    by (simp add: sample_environ_def)
qed

subsection \<open>C10: no webhook URL configured\<close>



end
